theory Spec2Isabelle
  imports Main
begin

section \<open>Calendar arithmetic of \<^verbatim>\<open>datetime.date\<close>\<close>

text \<open>
  \<^verbatim>\<open>shift_date\<close> (src/main.py, lines 39-62) parses a token into a
  \<^verbatim>\<open>datetime.date\<close>, adds a \<^verbatim>\<open>timedelta\<close> of whole days and renders the
  result. The date type works on proleptic Gregorian ordinals (day 1 is 0001-01-01), with
  the conversions \<^verbatim>\<open>_ymd2ord\<close> and \<^verbatim>\<open>_ord2ymd\<close> of CPython's datetime module,
  which are transcribed here. Python's unbounded integers are \<^typ>\<open>int\<close>; Python's
  \<^verbatim>\<open>//\<close> and \<^verbatim>\<open>%\<close> are \<open>div\<close> and \<open>mod\<close> on \<^typ>\<open>int\<close>
  (both round towards minus infinity).
\<close>

record date =
  year :: int
  month :: int
  day :: int

definition MINYEAR :: int where "MINYEAR = 1"
definition MAXYEAR :: int where "MAXYEAR = 9999"
definition MAXORDINAL :: int where "MAXORDINAL = 3652059"

definition is_leap :: "int \<Rightarrow> bool" where
  "is_leap y = (y mod 4 = 0 \<and> (y mod 100 \<noteq> 0 \<or> y mod 400 = 0))"

definition days_before_year :: "int \<Rightarrow> int" where
  "days_before_year y = (let y1 = y - 1 in y1 * 365 + y1 div 4 - y1 div 100 + y1 div 400)"

definition DAYS_IN_MONTH :: "int list" where
  "DAYS_IN_MONTH = [-1, 31, 28, 31, 30, 31, 30, 31, 31, 30, 31, 30, 31]"

definition DAYS_BEFORE_MONTH :: "int list" where
  "DAYS_BEFORE_MONTH = [-1, 0, 31, 59, 90, 120, 151, 181, 212, 243, 273, 304, 334]"

definition days_in_month :: "int \<Rightarrow> int \<Rightarrow> int" where
  "days_in_month y m = (if m = 2 \<and> is_leap y then 29 else DAYS_IN_MONTH ! nat m)"

definition days_before_month :: "int \<Rightarrow> int \<Rightarrow> int" where
  "days_before_month y m = DAYS_BEFORE_MONTH ! nat m + (if m > 2 \<and> is_leap y then 1 else 0)"

definition ymd2ord :: "int \<Rightarrow> int \<Rightarrow> int \<Rightarrow> int" where
  "ymd2ord y m d = days_before_year y + days_before_month y m + d"

definition ord2ymd :: "int \<Rightarrow> int \<times> int \<times> int" where
  "ord2ymd n0 =
    (let n = n0 - 1;
         n400 = n div 146097; n = n mod 146097;
         y = n400 * 400 + 1;
         n100 = n div 36524; n = n mod 36524;
         n4 = n div 1461; n = n mod 1461;
         n1 = n div 365; n = n mod 365;
         y = y + n100 * 100 + n4 * 4 + n1
     in if n1 = 4 \<or> n100 = 4 then (y - 1, 12, 31)
        else
          let leapyear = (n1 = 3 \<and> (n4 \<noteq> 24 \<or> n100 = 3));
              m = (n + 50) div 2 ^ 5;
              preceding = DAYS_BEFORE_MONTH ! nat m + (if m > 2 \<and> leapyear then 1 else 0)
          in if preceding > n
             then let m = m - 1;
                      preceding = preceding - (DAYS_IN_MONTH ! nat m + (if m = 2 \<and> leapyear then 1 else 0))
                  in (y, m, n - preceding + 1)
             else (y, m, n - preceding + 1))"

text \<open>
  The \<^verbatim>\<open>date\<close> constructor checks its fields and raises \<^verbatim>\<open>ValueError\<close>;
  \<^verbatim>\<open>date + timedelta(days=k)\<close> raises \<^verbatim>\<open>OverflowError\<close> when the
  \<^verbatim>\<open>timedelta\<close> cannot be built (more than 999999999 days) or when the resulting
  ordinal leaves \<open>1..MAXORDINAL\<close>. Exceptions are values of a sum type: the ones
  the program can meet, all of them subclasses of \<^verbatim>\<open>Exception\<close>
  (\<^verbatim>\<open>PatternError\<close> is \<^verbatim>\<open>re.error\<close>). An interrupt from outside, such as
  \<^verbatim>\<open>KeyboardInterrupt\<close>, is not an event of this model.
\<close>

datatype py_exception = ValueError | OverflowError | PatternError | LookupError | OSError

definition valid_date :: "int \<Rightarrow> int \<Rightarrow> int \<Rightarrow> bool" where
  "valid_date y m d =
     (MINYEAR \<le> y \<and> y \<le> MAXYEAR \<and> 1 \<le> m \<and> m \<le> 12 \<and> 1 \<le> d \<and> d \<le> days_in_month y m)"

definition make_date :: "int \<Rightarrow> int \<Rightarrow> int \<Rightarrow> py_exception + date" where
  "make_date y m d =
     (if valid_date y m d then Inr \<lparr>year = y, month = m, day = d\<rparr> else Inl ValueError)"

definition toordinal :: "date \<Rightarrow> int" where
  "toordinal dt = ymd2ord (year dt) (month dt) (day dt)"

definition fromordinal :: "int \<Rightarrow> date" where
  "fromordinal n = (case ord2ymd n of (y, m, d) \<Rightarrow> \<lparr>year = y, month = m, day = d\<rparr>)"

definition date_add_days :: "date \<Rightarrow> int \<Rightarrow> py_exception + date" where
  "date_add_days dt k =
     (if \<bar>k\<bar> > 999999999 then Inl OverflowError
      else let n = toordinal dt + k
           in if 0 < n \<and> n \<le> MAXORDINAL then Inr (fromordinal n) else Inl OverflowError)"

section \<open>Characters and the regular expressions of \<^verbatim>\<open>strptime\<close>\<close>

text \<open>
  Text is a list of \<^typ>\<open>char\<close>, that is of code points below 256. On that range the
  class \<^verbatim>\<open>\d\<close> of Python's \<^verbatim>\<open>re\<close> is exactly \<open>0..9\<close>, \<^verbatim>\<open>\s\<close> is the
  set below, and case-insensitive matching identifies \<open>A..Z\<close> with \<open>a..z\<close> and
  the capital letters \<open>0xC0..0xDE\<close> (without \<open>0xD7\<close>) with the letters 32 above them.
\<close>

definition digits :: string where
  "digits = ''0123456789''"

definition is_digit :: "char \<Rightarrow> bool" where
  "is_digit c = (c \<in> set digits)"

definition digit_val :: "char \<Rightarrow> nat" where
  "digit_val c = of_char c - 48"

definition int_of_digits :: "string \<Rightarrow> int" where
  "int_of_digits s = int (foldl (\<lambda>a c. 10 * a + digit_val c) 0 (filter is_digit s))"

definition is_space :: "char \<Rightarrow> bool" where
  "is_space c = (let n = (of_char c :: nat) in (9 \<le> n \<and> n \<le> 13) \<or> (28 \<le> n \<and> n \<le> 32) \<or> n = 133 \<or> n = 160)"

definition lower_code :: "char \<Rightarrow> nat" where
  "lower_code c = (let n = (of_char c :: nat)
                   in if (65 \<le> n \<and> n \<le> 90) \<or> (192 \<le> n \<and> n \<le> 222 \<and> n \<noteq> 215) then n + 32 else n)"

definition ci_eq :: "char \<Rightarrow> char \<Rightarrow> bool" where
  "ci_eq c x = (lower_code c = lower_code x)"

text \<open>
  A small regular-expression type for the patterns \<^verbatim>\<open>_strptime\<close> builds for the
  directives. \<open>rx_match r s\<close> lists the remainders of \<open>s\<close> after each way \<open>r\<close> matches a
  prefix, in the order in which a backtracking matcher tries them (the first alternative
  first).
\<close>

datatype rx = Cls string | Seq rx rx | Alt rx rx

fun rx_match :: "rx \<Rightarrow> string \<Rightarrow> string list" where
  "rx_match (Cls cs) s = (case s of [] \<Rightarrow> [] | x # xs \<Rightarrow> if x \<in> set cs then [xs] else [])"
| "rx_match (Seq r1 r2) s = concat (map (rx_match r2) (rx_match r1 s))"
| "rx_match (Alt r1 r2) s = rx_match r1 s @ rx_match r2 s"

text \<open>
  The directives of \<^verbatim>\<open>_strptime._TimeRE\<close> that this development covers:
  \<^verbatim>\<open>'d': r"(?P<d>3[0-1]|[1-2]\d|0[1-9]|[1-9]| [1-9])"\<close>,
  \<^verbatim>\<open>'m': r"(?P<m>1[0-2]|0[1-9]|[1-9])"\<close>,
  \<^verbatim>\<open>'Y': r"(?P<Y>\d\d\d\d)"\<close>.
\<close>

definition rx_d :: rx where
  "rx_d = Alt (Seq (Cls ''3'') (Cls ''01''))
         (Alt (Seq (Cls ''12'') (Cls digits))
         (Alt (Seq (Cls ''0'') (Cls ''123456789''))
         (Alt (Cls ''123456789'')
              (Seq (Cls '' '') (Cls ''123456789'')))))"

definition rx_m :: rx where
  "rx_m = Alt (Seq (Cls ''1'') (Cls ''012''))
         (Alt (Seq (Cls ''0'') (Cls ''123456789''))
              (Cls ''123456789''))"

definition rx_Y :: rx where
  "rx_Y = Seq (Cls digits) (Seq (Cls digits) (Seq (Cls digits) (Cls digits)))"

definition directive_rx :: "char \<Rightarrow> rx option" where
  "directive_rx c =
     (if c = CHR ''d'' then Some rx_d
      else if c = CHR ''m'' then Some rx_m
      else if c = CHR ''Y'' then Some rx_Y
      else None)"

section \<open>\<^verbatim>\<open>datetime.strptime\<close> and \<^verbatim>\<open>date.strftime\<close>\<close>

text \<open>
  \<^verbatim>\<open>_TimeRE.pattern\<close> turns the format into one regular expression, left to right:
  a run of whitespace becomes \<^verbatim>\<open>\s+\<close>, \<^verbatim>\<open>%%\<close> a literal percent sign, a directive
  its named group, every other character itself (regex metacharacters are escaped first).
  A percent sign at the end of the format, or followed by a character that is no
  directive, raises \<^verbatim>\<open>ValueError\<close>. Only \<^verbatim>\<open>%Y\<close>, \<^verbatim>\<open>%m\<close>, \<^verbatim>\<open>%d\<close> and
  \<^verbatim>\<open>%%\<close> are covered: \<open>modelled_format\<close> says that a format uses no other
  directive, and the results that depend on how an arbitrary format parses or renders
  assume it. The same directive twice
  makes \<^verbatim>\<open>re.compile\<close> fail (redefinition of a group name), which is not a
  \<^verbatim>\<open>ValueError\<close>.
\<close>

datatype fmt_item = Lit char | Spaces | Field char

fun modelled_format :: "string \<Rightarrow> bool" where
  "modelled_format [] = True"
| "modelled_format [c] = True"
| "modelled_format (c # e # cs) =
     (if c = CHR ''%'' then e \<in> set ''Ymd%'' \<and> modelled_format cs
      else modelled_format (e # cs))"

function tokenise :: "string \<Rightarrow> py_exception + fmt_item list" where
  "tokenise [] = Inr []"
| "tokenise (c # cs) =
     (if c = CHR ''%'' then
        (case cs of
           [] \<Rightarrow> Inl ValueError
         | e # es \<Rightarrow>
             if e = CHR ''%'' then map_sum id (Cons (Lit e)) (tokenise es)
             else if directive_rx e \<noteq> None then map_sum id (Cons (Field e)) (tokenise es)
             else Inl ValueError)
      else if is_space c then map_sum id (Cons Spaces) (tokenise (dropWhile is_space cs))
      else map_sum id (Cons (Lit c)) (tokenise cs))"
  by pat_completeness auto
termination
  by (relation "measure length") (auto simp: length_dropWhile_le less_Suc_eq_le)

definition fields_of :: "fmt_item list \<Rightarrow> char list" where
  "fields_of items = concat (map (\<lambda>i. case i of Field c \<Rightarrow> [c] | _ \<Rightarrow> []) items)"

definition compile_format :: "string \<Rightarrow> py_exception + fmt_item list" where
  "compile_format fmt =
     (case tokenise fmt of
        Inl e \<Rightarrow> Inl e
      | Inr items \<Rightarrow> if distinct (fields_of items) then Inr items else Inl PatternError)"

text \<open>
  Matching one item against the data: the remainders after each possible match, in the
  matcher's order, with the text a directive captured. \<^verbatim>\<open>\s+\<close> is greedy: the longest
  run first. The pattern is compiled with \<^verbatim>\<open>re.IGNORECASE\<close>.
\<close>

fun match_item :: "fmt_item \<Rightarrow> string \<Rightarrow> ((char \<times> string) list \<times> string) list" where
  "match_item (Lit c) s = (case s of [] \<Rightarrow> [] | x # xs \<Rightarrow> if ci_eq c x then [([], xs)] else [])"
| "match_item Spaces s =
     map (\<lambda>k. ([], drop k s)) (rev [1 ..< Suc (length (takeWhile is_space s))])"
| "match_item (Field c) s =
     (case directive_rx c of
        None \<Rightarrow> []
      | Some r \<Rightarrow> map (\<lambda>rest. ([(c, take (length s - length rest) s)], rest)) (rx_match r s))"

fun match_items :: "fmt_item list \<Rightarrow> string \<Rightarrow> ((char \<times> string) list \<times> string) list" where
  "match_items [] s = [([], s)]"
| "match_items (i # is) s =
     concat (map (\<lambda>(found, rest). map (\<lambda>(found', rest'). (found @ found', rest')) (match_items is rest))
                 (match_item i s))"

text \<open>
  \<^verbatim>\<open>_strptime\<close> takes the first match of the pattern at the start of the data, and
  raises \<^verbatim>\<open>ValueError\<close> when there is none or when it does not cover the whole data
  (``unconverted data remains''). A missing year is 1900, a missing month or day 1. The
  fields then go through the \<^verbatim>\<open>date\<close> constructor, which rejects impossible dates.
  (For the 29th of February without a year \<^verbatim>\<open>_strptime\<close> computes with 1904 and sets
  the year back to 1900, which the constructor rejects as well.)
\<close>

definition group :: "(char \<times> string) list \<Rightarrow> char \<Rightarrow> int \<Rightarrow> int" where
  "group found c dflt = (case map_of found c of None \<Rightarrow> dflt | Some s \<Rightarrow> int_of_digits s)"

definition strptime :: "string \<Rightarrow> string \<Rightarrow> py_exception + date" where
  "strptime date_str date_format =
     (case compile_format date_format of
        Inl e \<Rightarrow> Inl e
      | Inr items \<Rightarrow>
          (case match_items items date_str of
             [] \<Rightarrow> Inl ValueError
           | (found, rest) # _ \<Rightarrow>
               if rest \<noteq> [] then Inl ValueError
               else make_date (group found (CHR ''Y'') 1900)
                              (group found (CHR ''m'') 1)
                              (group found (CHR ''d'') 1)))"

text \<open>
  \<^verbatim>\<open>date.strftime\<close> copies the format and hands the directives to the C library:
  \<^verbatim>\<open>%m\<close> and \<^verbatim>\<open>%d\<close> are two digits, zero-padded; \<^verbatim>\<open>%Y\<close> is the year as a
  decimal number, which CPython 3.11 on glibc does not pad: the year 999 is rendered as
  \<^verbatim>\<open>999\<close>, not \<^verbatim>\<open>0999\<close>. (Where the C library pads to four digits the two
  renderings differ for the years below 1000 only.) A \<^verbatim>\<open>date\<close> has a year between 1
  and 9999, so \<open>str_year\<close> gives one to four digits. The program only renders with a
  format that has just parsed a token, so every percent sign is followed by one of the
  covered directives; a percent sign with anything else is copied.
\<close>

definition digit_char :: "int \<Rightarrow> char" where
  "digit_char n = digits ! nat (n mod 10)"

definition pad2 :: "int \<Rightarrow> string" where
  "pad2 n = [digit_char (n div 10), digit_char n]"

definition pad4 :: "int \<Rightarrow> string" where
  "pad4 n = [digit_char (n div 1000), digit_char (n div 100), digit_char (n div 10), digit_char n]"

definition str_year :: "int \<Rightarrow> string" where
  "str_year y =
     (if y < 10 then [digit_char y]
      else if y < 100 then pad2 y
      else if y < 1000 then [digit_char (y div 100), digit_char (y div 10), digit_char y]
      else pad4 y)"

fun strftime :: "date \<Rightarrow> string \<Rightarrow> string" where
  "strftime dt [] = []"
| "strftime dt [c] = [c]"
| "strftime dt (c # e # cs) =
     (if c = CHR ''%'' then
        (if e = CHR ''Y'' then str_year (year dt)
         else if e = CHR ''m'' then pad2 (month dt)
         else if e = CHR ''d'' then pad2 (day dt)
         else if e = CHR ''%'' then [e]
         else [c, e]) @ strftime dt cs
      else c # strftime dt (e # cs))"

section \<open>The random generator\<close>


definition randint :: "('g \<Rightarrow> nat \<Rightarrow> nat \<times> 'g) \<Rightarrow> 'g \<Rightarrow> int \<Rightarrow> int \<Rightarrow> py_exception + int \<times> 'g" where
  "randint randbelow g a b =
     (let width = b + 1 - a
      in if width > 0 then (case randbelow g (nat width) of (r, g') \<Rightarrow> Inr (a + int r, g'))
         else Inl ValueError)"

section \<open>\<^verbatim>\<open>shift_date\<close> and \<^verbatim>\<open>replace_date\<close>\<close>

text \<open>
  What the program logs, one constructor for each logging call of src/main.py; the
  exception text that the messages interpolate is kept as the exception itself.
\<close>

datatype level = INFO | WARNING | ERROR

datatype log_record =
    Invalid_date string py_exception
  | Error_shifting_date string py_exception
  | Error_detecting_encoding py_exception
  | Input_file_not_found string
  | Could_not_detect_encoding
  | Error_during_anonymization py_exception
  | Successfully_anonymized string string
  | Max_shift_days_not_positive

fun level_of :: "log_record \<Rightarrow> level" where
  "level_of (Invalid_date _ _) = WARNING"
| "level_of (Successfully_anonymized _ _) = INFO"
| "level_of _ = ERROR"

text \<open>
  The two handlers of \<^verbatim>\<open>shift_date\<close> (lines 57-62): \<^verbatim>\<open>ValueError\<close> is logged as a
  warning, any other exception as an error; both return \<^verbatim>\<open>None\<close>.
\<close>

definition shift_date_except :: "string \<Rightarrow> py_exception \<Rightarrow> log_record" where
  "shift_date_except date_str e =
     (if e = ValueError then Invalid_date date_str e else Error_shifting_date date_str e)"

definition shift_date ::
  "('g \<Rightarrow> nat \<Rightarrow> nat \<times> 'g) \<Rightarrow> string \<Rightarrow> int \<Rightarrow> string \<Rightarrow> 'g \<Rightarrow> string option \<times> 'g \<times> log_record list" where
  "shift_date randbelow date_str max_shift_days date_format random_state =
     (case strptime date_str date_format of
        Inl e \<Rightarrow> (None, random_state, [shift_date_except date_str e])
      | Inr date_obj \<Rightarrow>
          (case randint randbelow random_state (- max_shift_days) max_shift_days of
             Inl e \<Rightarrow> (None, random_state, [shift_date_except date_str e])
           | Inr (shift_days, g') \<Rightarrow>
               (case date_add_days date_obj shift_days of
                  Inl e \<Rightarrow> (None, g', [shift_date_except date_str e])
                | Inr shifted_date \<Rightarrow> (Some (strftime shifted_date date_format), g', []))))"

text \<open>
  \<^verbatim>\<open>replace_date\<close> (lines 95-101): \<^verbatim>\<open>if shifted_date:\<close> is false for \<^verbatim>\<open>None\<close>
  and for the empty string. The state threaded through the substitutions is the generator
  and the log.
\<close>

definition replace_date ::
  "('g \<Rightarrow> nat \<Rightarrow> nat \<times> 'g) \<Rightarrow> int \<Rightarrow> string \<Rightarrow> string \<Rightarrow> 'g \<times> log_record list \<Rightarrow> string \<times> 'g \<times> log_record list" where
  "replace_date randbelow max_shift_days date_format date_str st =
     (case shift_date randbelow date_str max_shift_days date_format (fst st) of
        (shifted_date, g', logged) \<Rightarrow>
          ((case shifted_date of
              None \<Rightarrow> date_str
            | Some s \<Rightarrow> if s \<noteq> [] then s else date_str),
           g', snd st @ logged))"

section \<open>The scanner: \<^verbatim>\<open>date_regex.sub\<close>\<close>

text \<open>
  \<^verbatim>\<open>re.compile(r'\d{4}-\d{2}-\d{2}')\<close> (line 92). \<^verbatim>\<open>sub\<close> scans from the left: where
  the pattern matches, the match is replaced by the callback's result and scanning goes
  on behind the match; elsewhere the character is copied. (A match of this pattern is
  ten characters long; \<open>max 1\<close> only makes the termination of \<open>regex_sub\<close> evident.)
\<close>

definition date_regex :: rx where
  "date_regex =
     Seq (Cls digits) (Seq (Cls digits) (Seq (Cls digits) (Seq (Cls digits)
    (Seq (Cls ''-'') (Seq (Cls digits) (Seq (Cls digits)
    (Seq (Cls ''-'') (Seq (Cls digits) (Cls digits)))))))))"

definition regex_match :: "rx \<Rightarrow> string \<Rightarrow> string option" where
  "regex_match r s =
     (case rx_match r s of [] \<Rightarrow> None | rest # _ \<Rightarrow> Some (take (length s - length rest) s))"

function regex_sub :: "rx \<Rightarrow> (string \<Rightarrow> 's \<Rightarrow> string \<times> 's) \<Rightarrow> string \<Rightarrow> 's \<Rightarrow> string \<times> 's" where
  "regex_sub r repl [] st = ([], st)"
| "regex_sub r repl (c # cs) st =
     (case regex_match r (c # cs) of
        None \<Rightarrow> (case regex_sub r repl cs st of (out, st') \<Rightarrow> (c # out, st'))
      | Some tok \<Rightarrow>
          (case repl tok st of
             (rep, st1) \<Rightarrow>
               (case regex_sub r repl (drop (max 1 (length tok)) (c # cs)) st1 of
                  (out, st2) \<Rightarrow> (rep @ out, st2))))"
  by pat_completeness auto
termination
  by (relation "measure (\<lambda>(r, repl, s, st). length s)") auto

section \<open>Files, \<^verbatim>\<open>detect_encoding\<close>, \<^verbatim>\<open>anonymize_data\<close> and \<^verbatim>\<open>main\<close>\<close>

text \<open>
  The world outside the program is a record: the files that exist with their text, the
  answer of \<^verbatim>\<open>chardet.detect\<close>, which encoding names the codec
  registry knows, which paths cannot be opened, an exception that reading or writing
  raises at a given line of the loop, the platform's \<^verbatim>\<open>os.linesep\<close>, the random
  library and the entropy an unseeded generator starts from.

  Two things are abstracted. A key of \<open>files\<close> is a file, not one of its names: two path
  strings that reach the same file are the same key, so that different keys are
  different files. And the text of a file is the sequence of characters that the chosen
  encoding decodes its bytes to under \<^verbatim>\<open>errors='ignore'\<close> (line 88), which drops every
  byte sequence it cannot decode; what is written is the sequence of characters handed
  to the encoder. The bytes themselves, and so what decoding loses, are not modelled.
\<close>

record 'g env =
  files :: "string \<rightharpoonup> string"
  chardet_detect :: "string \<Rightarrow> string option"
  known_encoding :: "string \<Rightarrow> bool"
  unreadable :: "string \<Rightarrow> bool"
  unwritable :: "string \<Rightarrow> bool"
  loop_fault :: "nat \<Rightarrow> py_exception option"
  linesep :: string
  seeded :: "int \<Rightarrow> 'g"
  randbelow :: "'g \<Rightarrow> nat \<Rightarrow> nat \<times> 'g"
  entropy :: int

definition LF :: char where "LF = CHR 0x0A"
definition CR :: char where "CR = CHR 0x0D"

text \<open>
  Both files are opened in text mode without a \<^verbatim>\<open>newline\<close> argument (lines 88-89).
  Reading then translates \<^verbatim>\<open>\r\n\<close> and \<^verbatim>\<open>\r\<close> to \<^verbatim>\<open>\n\<close> (universal newlines),
  iterating the file yields the lines with their \<^verbatim>\<open>\n\<close>, and writing translates
  every \<^verbatim>\<open>\n\<close> to \<^verbatim>\<open>os.linesep\<close>.
\<close>

fun universal_newlines :: "string \<Rightarrow> string" where
  "universal_newlines [] = []"
| "universal_newlines [c] = (if c = CR then [LF] else [c])"
| "universal_newlines (c # e # cs) =
     (if c = CR then (if e = LF then LF # universal_newlines cs else LF # universal_newlines (e # cs))
      else c # universal_newlines (e # cs))"

fun readlines :: "string \<Rightarrow> string list" where
  "readlines [] = []"
| "readlines (c # cs) =
     (if c = LF then [c] # readlines cs
      else (case readlines cs of [] \<Rightarrow> [[c]] | l # ls \<Rightarrow> (c # l) # ls))"

definition write_text :: "string \<Rightarrow> string \<Rightarrow> string" where
  "write_text sep s = concat (map (\<lambda>c. if c = LF then sep else [c]) s)"

text \<open>\<^verbatim>\<open>detect_encoding\<close> (lines 26-37): any exception is logged and gives \<^verbatim>\<open>None\<close>.\<close>

definition detect_encoding :: "'g env \<Rightarrow> string \<Rightarrow> string option \<times> log_record list" where
  "detect_encoding w file_path =
     (case files w file_path of
        None \<Rightarrow> (None, [Error_detecting_encoding OSError])
      | Some raw_data \<Rightarrow>
          if unreadable w file_path then (None, [Error_detecting_encoding OSError])
          else (chardet_detect w raw_data, []))"

text \<open>
  The loop of lines 94-104. \<open>k\<close> counts the lines; the text written so far, the generator,
  the log and the exception that ended the loop, if any, are returned.
\<close>

fun process_lines ::
  "'g env \<Rightarrow> int \<Rightarrow> string \<Rightarrow> nat \<Rightarrow> string list \<Rightarrow> 'g \<times> log_record list
     \<Rightarrow> string \<times> ('g \<times> log_record list) \<times> py_exception option" where
  "process_lines w max_shift_days date_format k [] st = ([], st, None)"
| "process_lines w max_shift_days date_format k (line # lines) st =
     (case loop_fault w k of
        Some e \<Rightarrow> ([], st, Some e)
      | None \<Rightarrow>
          (case regex_sub date_regex (replace_date (randbelow w) max_shift_days date_format) line st of
             (anonymized_line, st1) \<Rightarrow>
               (case process_lines w max_shift_days date_format (Suc k) lines st1 of
                  (written, st2, exc) \<Rightarrow> (anonymized_line @ written, st2, exc))))"

text \<open>
  The result of a run: the files afterwards, the log, the generator at the end (kept to
  count the draws; \<^verbatim>\<open>None\<close> when none was created) and the exception that reached the
  caller, if any.
\<close>

record 'g outcome =
  files_after :: "string \<rightharpoonup> string"
  logged :: "log_record list"
  generator :: "'g option"
  raised :: "py_exception option"

definition Random :: "'g env \<Rightarrow> int option \<Rightarrow> 'g" where
  "Random w seed = seeded w (case seed of None \<Rightarrow> entropy w | Some s \<Rightarrow> s)"

text \<open>
  The \<^verbatim>\<open>try\<close> block of \<^verbatim>\<open>anonymize_data\<close> (lines 87-105): the input is opened
  first, then the output, which creates or empties it; only then is the input read.
  \<open>anonymize_try\<close> returns the exception that ended the block, if any, with what had
  been written by then. In \<open>anonymize_data\<close> the handler of lines 107-108 catches
  it, whatever it is, and logs it. Nothing before the block raises:
  \<^verbatim>\<open>os.path.exists\<close> answers \<^verbatim>\<open>False\<close> instead, and \<^verbatim>\<open>detect_encoding\<close>
  has its own handler. So no exception reaches the caller of \<open>anonymize_data\<close>.
\<close>

definition anonymize_try ::
  "'g env \<Rightarrow> string \<Rightarrow> string \<Rightarrow> int \<Rightarrow> int option \<Rightarrow> string \<Rightarrow> string
     \<Rightarrow> (string \<rightharpoonup> string) \<times> log_record list \<times> 'g option \<times> py_exception option" where
  "anonymize_try w input_file output_file max_shift_days seed date_format encoding =
     (if files w input_file = None \<or> unreadable w input_file then (files w, [], None, Some OSError)
      else if \<not> known_encoding w encoding then (files w, [], None, Some LookupError)
      else if unwritable w output_file then (files w, [], None, Some OSError)
      else
        let fs = (files w)(output_file \<mapsto> []);
            infile = universal_newlines (case fs input_file of None \<Rightarrow> [] | Some t \<Rightarrow> t);
            random_state = Random w seed
        in (case process_lines w max_shift_days date_format 0 (readlines infile) (random_state, []) of
              (written, (g, lg), exc) \<Rightarrow>
                (fs(output_file \<mapsto> write_text (linesep w) written), lg, Some g, exc)))"

definition anonymize_data ::
  "'g env \<Rightarrow> string \<Rightarrow> string \<Rightarrow> int \<Rightarrow> int option \<Rightarrow> string \<Rightarrow> string option \<Rightarrow> 'g outcome" where
  "anonymize_data w input_file output_file max_shift_days seed date_format encoding =
     (if files w input_file = None then
        \<lparr>files_after = files w, logged = [Input_file_not_found input_file],
         generator = None, raised = None\<rparr>
      else
        (case (case encoding of
                 None \<Rightarrow> detect_encoding w input_file
               | Some enc \<Rightarrow> (Some enc, [])) of
           (None, lg0) \<Rightarrow>
             \<lparr>files_after = files w, logged = lg0 @ [Could_not_detect_encoding],
              generator = None, raised = None\<rparr>
         | (Some enc, lg0) \<Rightarrow>
             (case anonymize_try w input_file output_file max_shift_days seed date_format enc of
                (fs, lg, g, exc) \<Rightarrow>
                  \<lparr>files_after = fs,
                   logged = lg0 @ lg @
                     [case exc of
                        None \<Rightarrow> Successfully_anonymized input_file output_file
                      | Some e \<Rightarrow> Error_during_anonymization e],
                   generator = g, raised = None\<rparr>)))"

text \<open>The parsed command line (\<^verbatim>\<open>setup_argparse\<close>, lines 13-24) and \<^verbatim>\<open>main\<close>.\<close>

record args =
  input_file :: string
  output_file :: string
  max_shift_days :: int
  seed :: "int option"
  date_format :: string
  encoding :: "string option"

definition main :: "'g env \<Rightarrow> args \<Rightarrow> 'g outcome" where
  "main w a =
     (if max_shift_days a \<le> 0 then
        \<lparr>files_after = files w, logged = [Max_shift_days_not_positive],
         generator = None, raised = None\<rparr>
      else anonymize_data w (input_file a) (output_file a) (max_shift_days a) (seed a)
             (date_format a) (encoding a))"

section \<open>Notions used to state the properties\<close>

text \<open>
  What \<^verbatim>\<open>date_regex.findall\<close> and \<^verbatim>\<open>date_regex.split\<close> return on a text: the
  matched tokens from left to right, and the pieces of text around them. \<open>weave\<close> puts
  pieces and tokens together again.
\<close>

function findall :: "rx \<Rightarrow> string \<Rightarrow> string list" where
  "findall r [] = []"
| "findall r (c # cs) =
     (case regex_match r (c # cs) of
        None \<Rightarrow> findall r cs
      | Some tok \<Rightarrow> tok # findall r (drop (max 1 (length tok)) (c # cs)))"
  by pat_completeness auto
termination
  by (relation "measure (\<lambda>(r, s). length s)") auto

function gaps :: "rx \<Rightarrow> string \<Rightarrow> string list" where
  "gaps r [] = [[]]"
| "gaps r (c # cs) =
     (case regex_match r (c # cs) of
        None \<Rightarrow> (case gaps r cs of [] \<Rightarrow> [[c]] | g # gs \<Rightarrow> (c # g) # gs)
      | Some tok \<Rightarrow> [] # gaps r (drop (max 1 (length tok)) (c # cs)))"
  by pat_completeness auto
termination
  by (relation "measure (\<lambda>(r, s). length s)") auto

fun weave :: "string list \<Rightarrow> string list \<Rightarrow> string" where
  "weave [] ts = []"
| "weave (g # gs) [] = g"
| "weave (g # gs) (t # ts) = g @ t @ weave gs ts"

text \<open>
  Whether a token parses under a format and the directives a format contains. For the
  generator: the value that line 54 binds to \<^verbatim>\<open>shift_days\<close> from a given state, one
  step of the generator for a bound, and what it means that the library draws uniformly.
  The generator is deterministic, so its distribution is a matter of frequencies over
  the states it may be in: \<open>uniform_draws rb gs n c\<close> says that among the states \<open>gs\<close>
  each number below \<open>n\<close> is drawn from exactly \<open>c\<close> of them.
\<close>

definition parses :: "string \<Rightarrow> string \<Rightarrow> bool" where
  "parses fmt tok = (case strptime tok fmt of Inl e \<Rightarrow> False | Inr d \<Rightarrow> True)"




definition draw :: "('g \<Rightarrow> nat \<Rightarrow> nat \<times> 'g) \<Rightarrow> int \<Rightarrow> 'g \<Rightarrow> 'g" where
  "draw rb max_shift g = snd (rb g (nat (2 * max_shift + 1)))"

text \<open>
  A run in which nothing outside the program fails: the input exists and can be read, the
  encoding is given or detected and known, the output can be written and is another file
  than the input, and no read or write raises.
\<close>

definition resolved_encoding :: "'g env \<Rightarrow> args \<Rightarrow> string option" where
  "resolved_encoding w a =
     (case encoding a of None \<Rightarrow> fst (detect_encoding w (input_file a)) | Some enc \<Rightarrow> Some enc)"

definition undisturbed :: "'g env \<Rightarrow> args \<Rightarrow> bool" where
  "undisturbed w a =
     (files w (input_file a) \<noteq> None \<and> \<not> unreadable w (input_file a)
      \<and> (case resolved_encoding w a of None \<Rightarrow> False | Some enc \<Rightarrow> known_encoding w enc)
      \<and> \<not> unwritable w (output_file a) \<and> input_file a \<noteq> output_file a
      \<and> loop_fault w = (\<lambda>k. None))"

text \<open>
  A concrete generator and a concrete world, to run the program on examples: the
  generator counts its draws and returns the count modulo the bound.
\<close>

definition counting_randbelow :: "nat \<Rightarrow> nat \<Rightarrow> nat \<times> nat" where
  "counting_randbelow g n = (g mod n, Suc g)"

definition example_world :: "string \<Rightarrow> nat env" where
  "example_world text =
     \<lparr>files = [''in.txt'' \<mapsto> text],
      chardet_detect = (\<lambda>raw. if raw = [] then None else Some ''ascii''),
      known_encoding = (\<lambda>enc. enc = ''ascii'' \<or> enc = ''utf-8''),
      unreadable = (\<lambda>p. False), unwritable = (\<lambda>p. False), loop_fault = (\<lambda>k. None),
      linesep = [LF], seeded = nat, randbelow = counting_randbelow, entropy = 7\<rparr>"

definition example_args :: "int \<Rightarrow> string \<Rightarrow> args" where
  "example_args m fmt =
     \<lparr>input_file = ''in.txt'', output_file = ''out.txt'', max_shift_days = m, seed = Some 0,
      date_format = fmt, encoding = None\<rparr>"

section \<open>Running the program on examples\<close>

text \<open>The defining equations that the simplifier needs to run the program on a concrete input.\<close>

lemmas run_defs =
  main_def anonymize_data_def detect_encoding_def anonymize_try_def Random_def
  example_world_def example_args_def regex_match_def date_regex_def digits_def
  replace_date_def shift_date_def shift_date_except_def
  strptime_def compile_format_def fields_of_def directive_rx_def rx_Y_def rx_m_def rx_d_def
  ci_eq_def lower_code_def group_def int_of_digits_def is_digit_def digit_val_def
  make_date_def valid_date_def MINYEAR_def MAXYEAR_def MAXORDINAL_def
  days_in_month_def DAYS_IN_MONTH_def DAYS_BEFORE_MONTH_def is_leap_def is_space_def
  randint_def counting_randbelow_def date_add_days_def toordinal_def fromordinal_def
  ymd2ord_def ord2ymd_def days_before_year_def days_before_month_def
  pad2_def pad4_def str_year_def digit_char_def write_text_def LF_def CR_def Let_def

lemma modelled_default_format: "modelled_format ''%Y-%m-%d''"
  by simp

lemma example_run_output:
  "files_after (main (example_world ''Visit on 2023-06-15 and again on 2023-07-01.'')
                  (example_args 10 ''%Y-%m-%d'')) ''out.txt''
   = Some ''Visit on 2023-06-05 and again on 2023-06-22.''"
  by (simp add: run_defs)

section \<open>Fatal aborts\<close>

text \<open>
  C8. If the input path does not exist, or no encoding is given and detection yields none,
  the run ends with an error-level record as its last log entry and the file system is
  as before: the output file was not opened, created or written, and no generator was
  created.
\<close>

theorem abort_before_output:
  assumes "files w (input_file a) = None
           \<or> (encoding a = None \<and> fst (detect_encoding w (input_file a)) = None)"
  shows "files_after (main w a) = files w \<and> generator (main w a) = None
         \<and> raised (main w a) = None \<and> logged (main w a) \<noteq> []
         \<and> level_of (last (logged (main w a))) = ERROR"
  using assms
  by (auto simp: main_def anonymize_data_def split: option.splits prod.splits)

theorem abort_before_output_witness:
  "encoding (example_args 5 ''%Y-%m-%d'') = None
   \<and> fst (detect_encoding (example_world []) (input_file (example_args 5 ''%Y-%m-%d''))) = None
   \<and> files_after (main (example_world []) (example_args 5 ''%Y-%m-%d'')) = files (example_world [])
   \<and> files_after (main (example_world []) (example_args 5 ''%Y-%m-%d'')) ''out.txt'' = None
   \<and> level_of (last (logged (main (example_world []) (example_args 5 ''%Y-%m-%d'')))) = ERROR"
proof -
  have h: "encoding (example_args 5 ''%Y-%m-%d'') = None
     \<and> fst (detect_encoding (example_world []) (input_file (example_args 5 ''%Y-%m-%d''))) = None"
    by (simp add: example_args_def example_world_def detect_encoding_def)
  then have "files (example_world []) (input_file (example_args 5 ''%Y-%m-%d'')) = None
           \<or> (encoding (example_args 5 ''%Y-%m-%d'') = None
               \<and> fst (detect_encoding (example_world []) (input_file (example_args 5 ''%Y-%m-%d''))) = None)"
    by blast
  from abort_before_output[OF this] h show ?thesis
    by (simp add: example_world_def)
qed

text \<open>
  C10. \<^verbatim>\<open>main\<close> always returns, with no exception reaching its caller, so the process
  ends with status 0. A non-positive \<^verbatim>\<open>max_shift_days\<close>, a missing input file, a
  failed detection of the encoding and any exception inside the \<^verbatim>\<open>try\<close> block each end
  the run with their own error-level record; the last record of a run is an error
  whenever it is not the success message.
\<close>

theorem main_returns_normally:
  "raised (main w a) = None
   \<and> (max_shift_days a \<le> 0 \<longrightarrow>
        logged (main w a) = [Max_shift_days_not_positive] \<and> files_after (main w a) = files w)
   \<and> (0 < max_shift_days a \<and> files w (input_file a) = None \<longrightarrow>
        logged (main w a) = [Input_file_not_found (input_file a)])
   \<and> (0 < max_shift_days a \<and> files w (input_file a) \<noteq> None \<and> resolved_encoding w a = None \<longrightarrow>
        last (logged (main w a)) = Could_not_detect_encoding)
   \<and> (\<forall>enc e. 0 < max_shift_days a \<and> files w (input_file a) \<noteq> None \<and> resolved_encoding w a = Some enc
         \<and> snd (snd (snd (anonymize_try w (input_file a) (output_file a) (max_shift_days a) (seed a)
                             (date_format a) enc))) = Some e \<longrightarrow>
        last (logged (main w a)) = Error_during_anonymization e)
   \<and> (last (logged (main w a)) \<noteq> Successfully_anonymized (input_file a) (output_file a) \<longrightarrow>
        level_of (last (logged (main w a))) = ERROR)"
  by (auto simp: main_def anonymize_data_def resolved_encoding_def split: option.splits prod.splits)

theorem main_returns_normally_witness:
  "max_shift_days (example_args 0 ''%Y-%m-%d'') \<le> 0
   \<and> logged (main (example_world ''2023-06-15'') (example_args 0 ''%Y-%m-%d'')) = [Max_shift_days_not_positive]
   \<and> raised (main (example_world ''2023-06-15'') (example_args 0 ''%Y-%m-%d'')) = None
   \<and> snd (snd (snd (anonymize_try ((example_world ''2023-06-15'')\<lparr>loop_fault := (\<lambda>k. Some OSError)\<rparr>)
          ''in.txt'' ''out.txt'' 10 (Some 0) ''%Y-%m-%d'' ''ascii''))) = Some OSError
   \<and> last (logged (main ((example_world ''2023-06-15'')\<lparr>loop_fault := (\<lambda>k. Some OSError)\<rparr>)
          (example_args 10 ''%Y-%m-%d''))) = Error_during_anonymization OSError
   \<and> raised (main ((example_world ''2023-06-15'')\<lparr>loop_fault := (\<lambda>k. Some OSError)\<rparr>)
          (example_args 10 ''%Y-%m-%d'')) = None"
proof -
  have 1: "max_shift_days (example_args 0 ''%Y-%m-%d'') \<le> 0"
    by (simp add: example_args_def)
  have 2: "snd (snd (snd (anonymize_try ((example_world ''2023-06-15'')\<lparr>loop_fault := (\<lambda>k. Some OSError)\<rparr>)
          ''in.txt'' ''out.txt'' 10 (Some 0) ''%Y-%m-%d'' ''ascii''))) = Some OSError"
    by (simp add: anonymize_try_def example_world_def LF_def CR_def)
  have 3: "resolved_encoding ((example_world ''2023-06-15'')\<lparr>loop_fault := (\<lambda>k. Some OSError)\<rparr>)
             (example_args 10 ''%Y-%m-%d'') = Some ''ascii''"
    by (simp add: resolved_encoding_def example_args_def example_world_def detect_encoding_def)
  show ?thesis
    using 1 2 3
      main_returns_normally[of "example_world ''2023-06-15''" "example_args 0 ''%Y-%m-%d''"]
      main_returns_normally[of "(example_world ''2023-06-15'')\<lparr>loop_fault := (\<lambda>k. Some OSError)\<rparr>"
         "example_args 10 ''%Y-%m-%d''"]
    by (simp add: example_args_def example_world_def)
qed

section \<open>Determinism\<close>

text \<open>The entropy of the world is only read when the generator is created without a seed.\<close>

lemma process_lines_entropy:
  "process_lines (w\<lparr>entropy := e\<rparr>) m fmt k lines st = process_lines w m fmt k lines st"
  by (induction lines arbitrary: k st) (simp_all split: option.splits prod.splits)

lemma anonymize_try_entropy:
  "anonymize_try (w\<lparr>entropy := e\<rparr>) inp out m (Some s) fmt enc = anonymize_try w inp out m (Some s) fmt enc"
  by (simp add: anonymize_try_def Random_def process_lines_entropy cong: prod.case_cong)

lemma detect_encoding_entropy:
  "detect_encoding (w\<lparr>entropy := e\<rparr>) p = detect_encoding w p"
  by (simp add: detect_encoding_def split: option.splits)

text \<open>
  C1. With a seed, the run does not depend on the only source of nondeterminism, the
  entropy an unseeded generator would start from: two runs with the same seed, bound,
  format, encoding and files give the same output files, log and final generator.
\<close>

theorem seeded_run_deterministic:
  assumes "seed a = Some s"
  shows "main (w\<lparr>entropy := ea\<rparr>) a = main (w\<lparr>entropy := eb\<rparr>) a"
proof -
  have "main (w\<lparr>entropy := e\<rparr>) a = main w a" for e
    using assms
    by (simp add: main_def anonymize_data_def detect_encoding_entropy anonymize_try_entropy
        cong: option.case_cong prod.case_cong)
  then show ?thesis by simp
qed

theorem seeded_run_deterministic_witness:
  "seed (example_args 10 ''%Y-%m-%d'') = Some 0
   \<and> main ((example_world ''Visit on 2023-06-15 and again on 2023-07-01.'')\<lparr>entropy := 1\<rparr>)
           (example_args 10 ''%Y-%m-%d'')
     = main ((example_world ''Visit on 2023-06-15 and again on 2023-07-01.'')\<lparr>entropy := 2\<rparr>)
           (example_args 10 ''%Y-%m-%d'')
   \<and> files_after (main (example_world ''Visit on 2023-06-15 and again on 2023-07-01.'')
           (example_args 10 ''%Y-%m-%d'')) ''out.txt''
     = Some ''Visit on 2023-06-05 and again on 2023-06-22.''"
proof -
  have s: "seed (example_args 10 ''%Y-%m-%d'') = Some 0"
    by (simp add: example_args_def)
  show ?thesis
    using s seeded_run_deterministic[OF s,
        where w = "example_world ''Visit on 2023-06-15 and again on 2023-07-01.''" and ea = 1 and eb = 2] example_run_output
    by simp
qed

section \<open>Ordinals and calendar dates\<close>











section \<open>The scanner has no anchors\<close>

lemma rx_match_Seq_Cls:
  "rx_match (Seq (Cls cs) r) s = (case s of [] \<Rightarrow> [] | x # xs \<Rightarrow> if x \<in> set cs then rx_match r xs else [])"
  by (cases s) simp_all

lemma rx_match_date_regex:
  "rx_match date_regex s =
     (case s of
        a # b # c # d # h1 # e # f # h2 # g # h # rest \<Rightarrow>
          if is_digit a \<and> is_digit b \<and> is_digit c \<and> is_digit d \<and> h1 = CHR ''-''
             \<and> is_digit e \<and> is_digit f \<and> h2 = CHR ''-'' \<and> is_digit g \<and> is_digit h
          then [rest] else []
      | _ \<Rightarrow> [])"
  unfolding date_regex_def rx_match_Seq_Cls is_digit_def
  by (simp split: list.splits)

lemma regex_match_date_regex:
  "regex_match date_regex s =
     (case s of
        a # b # c # d # h1 # e # f # h2 # g # h # rest \<Rightarrow>
          if is_digit a \<and> is_digit b \<and> is_digit c \<and> is_digit d \<and> h1 = CHR ''-''
             \<and> is_digit e \<and> is_digit f \<and> h2 = CHR ''-'' \<and> is_digit g \<and> is_digit h
          then Some [a, b, c, d, h1, e, f, h2, g, h] else None
      | _ \<Rightarrow> None)"
  unfolding regex_match_def rx_match_date_regex
  by (auto split: list.splits)

lemma regex_match_date_SomeD:
  assumes "regex_match date_regex s = Some tok"
  shows "length tok = 10" "s = tok @ drop 10 s" "regex_match date_regex (tok @ post) = Some tok"
  using assms unfolding regex_match_date_regex
  by (auto split: list.splits if_splits)

lemma regex_sub_match:
  assumes "regex_match date_regex tok = Some tok"
  shows "regex_sub date_regex repl (tok @ post) st =
           (case repl tok st of
              (rep, st1) \<Rightarrow> (case regex_sub date_regex repl post st1 of (out, st2) \<Rightarrow> (rep @ out, st2)))"
proof -
  have len: "length tok = 10" using regex_match_date_SomeD(1)[OF assms] .
  then obtain c cs where tok: "tok = c # cs" by (cases tok) auto
  have m: "regex_match date_regex (c # cs @ post) = Some tok"
    using regex_match_date_SomeD(3)[OF assms, of post] tok by simp
  have d: "drop (max 1 (length tok)) (c # cs @ post) = post"
    using len tok by simp
  show ?thesis
    unfolding tok append_Cons regex_sub.simps(2)[of date_regex repl c "cs @ post"] m[unfolded tok]
    using d[unfolded tok] by (simp del: regex_sub.simps)
qed




section \<open>Parse failures and the draws of a run\<close>

lemma shift_date_failure:
  assumes "strptime tok fmt = Inl e"
  shows "shift_date rb tok m fmt g = (None, g, [shift_date_except tok e])"
  using assms by (simp add: shift_date_def)

lemma replace_date_failure:
  assumes "strptime tok fmt = Inl e"
  shows "replace_date rb m fmt tok (g, lg) = (tok, g, lg @ [shift_date_except tok e])"
  by (simp add: replace_date_def shift_date_failure[OF assms])

text \<open>
  C3. A matched token that \<^verbatim>\<open>strptime\<close> rejects (it does not conform to the format,
  or is an impossible calendar date: both are \<^verbatim>\<open>ValueError\<close>) makes
  \<^verbatim>\<open>shift_date\<close> return \<^verbatim>\<open>None\<close> with the generator untouched and one record
  logged, a warning; the token is put back unchanged and the scan goes on with the text
  behind it. (Any other exception of \<^verbatim>\<open>strptime\<close> takes the same path with an
  error-level record.)
\<close>

theorem parse_failure_passthrough:
  assumes "regex_match date_regex tok = Some tok" and "strptime tok fmt = Inl e"
    and "modelled_format fmt"
  shows "shift_date rb tok m fmt g = (None, g, [shift_date_except tok e])
       \<and> replace_date rb m fmt tok (g, lg) = (tok, g, lg @ [shift_date_except tok e])
       \<and> level_of (shift_date_except tok e) = (if e = ValueError then WARNING else ERROR)
       \<and> regex_sub date_regex (replace_date rb m fmt) (tok @ rest) (g, lg) =
           (case regex_sub date_regex (replace_date rb m fmt) rest (g, lg @ [shift_date_except tok e]) of
              (out, st) \<Rightarrow> (tok @ out, st))"
  using regex_sub_match[OF assms(1), of "replace_date rb m fmt" rest "(g, lg)"]
  by (simp add: shift_date_failure[OF assms(2)] replace_date_failure[OF assms(2)] shift_date_except_def
      del: regex_sub.simps)

theorem parse_failure_passthrough_witness:
  "regex_match date_regex ''2023-02-30'' = Some ''2023-02-30''
   \<and> strptime ''2023-02-30'' ''%Y-%m-%d'' = Inl ValueError
   \<and> modelled_format ''%Y-%m-%d''
   \<and> replace_date counting_randbelow 10 ''%Y-%m-%d'' ''2023-02-30'' (0, [])
       = (''2023-02-30'', 0, [Invalid_date ''2023-02-30'' ValueError])
   \<and> level_of (shift_date_except ''2023-02-30'' ValueError) = WARNING
   \<and> regex_sub date_regex (replace_date counting_randbelow 10 ''%Y-%m-%d'') ''2023-02-30, 2023-03-01'' (0, [])
       = (''2023-02-30, 2023-02-19'', 1, [Invalid_date ''2023-02-30'' ValueError])"
proof -
  have a: "regex_match date_regex ''2023-02-30'' = Some ''2023-02-30''"
    by (simp add: regex_match_date_regex is_digit_def digits_def)
  have b: "strptime ''2023-02-30'' ''%Y-%m-%d'' = Inl ValueError"
    by (simp add: run_defs)
  have c: "regex_sub date_regex (replace_date counting_randbelow 10 ''%Y-%m-%d'') '', 2023-03-01''
             (0, [Invalid_date ''2023-02-30'' ValueError])
           = ('', 2023-02-19'', 1, [Invalid_date ''2023-02-30'' ValueError])"
    by (simp add: run_defs)
  from parse_failure_passthrough[OF a b modelled_default_format,
      of counting_randbelow 10 0 "[]" "'', 2023-03-01''"] a b c
  show ?thesis by (simp add: shift_date_except_def)
qed

lemma shift_date_generator:
  assumes "0 \<le> m"
  shows "fst (snd (shift_date rb tok m fmt g)) = (if parses fmt tok then draw rb m g else g)"
proof (cases "strptime tok fmt")
  case (Inl e)
  then show ?thesis by (simp add: shift_date_def parses_def)
next
  case (Inr d)
  have w: "m + 1 - (- m) = 2 * m + 1" by simp
  obtain r g1 where rg: "rb g (nat (2 * m + 1)) = (r, g1)" by (cases "rb g (nat (2 * m + 1))") auto
  have ri: "randint rb g (- m) m = Inr (- m + int r, g1)"
    using assms by (simp add: randint_def w rg Let_def)
  show ?thesis
    using Inr by (simp add: shift_date_def parses_def ri draw_def rg split: sum.splits)
qed

lemma replace_date_generator:
  assumes "0 \<le> m"
  shows "fst (snd (replace_date rb m fmt tok (g, lg))) = (if parses fmt tok then draw rb m g else g)"
  using shift_date_generator[OF assms, of rb tok fmt g]
  by (auto simp: replace_date_def split: prod.splits)

lemma regex_sub_generator:
  assumes "0 \<le> m"
  shows "fst (snd (regex_sub date_regex (replace_date rb m fmt) s (g, lg)))
         = (draw rb m ^^ length (filter (parses fmt) (findall date_regex s))) g"
proof (induction s arbitrary: g lg rule: length_induct)
  case (1 s)
  show ?case
  proof (cases s)
    case Nil
    then show ?thesis by simp
  next
    case (Cons c cs)
    show ?thesis
    proof (cases "regex_match date_regex (c # cs)")
      case None
      have "length cs < length s" using Cons by simp
      with 1 have "fst (snd (regex_sub date_regex (replace_date rb m fmt) cs (g, lg)))
         = (draw rb m ^^ length (filter (parses fmt) (findall date_regex cs))) g" by blast
      then show ?thesis using None Cons by (auto split: prod.splits)
    next
      case (Some tok)
      let ?rest = "drop (max 1 (length tok)) (c # cs)"
      obtain rep g1 lg1 where r: "replace_date rb m fmt tok (g, lg) = (rep, g1, lg1)"
        by (cases "replace_date rb m fmt tok (g, lg)") auto
      have g1: "g1 = (if parses fmt tok then draw rb m g else g)"
        using replace_date_generator[OF assms, of rb fmt tok g lg] r by simp
      have "length ?rest < length s" using Cons by simp
      with 1 have ih: "fst (snd (regex_sub date_regex (replace_date rb m fmt) ?rest (g1, lg1)))
         = (draw rb m ^^ length (filter (parses fmt) (findall date_regex ?rest))) g1" by blast
      show ?thesis
        using Some Cons r ih g1 by (auto simp: funpow_swap1 split: prod.splits)
    qed
  qed
qed

lemma process_lines_generator:
  assumes "0 \<le> m" "loop_fault w = (\<lambda>k. None)"
  shows "fst (fst (snd (process_lines w m fmt k lines (g, lg))))
         = (draw (randbelow w) m ^^ length (filter (parses fmt) (concat (map (findall date_regex) lines)))) g
         \<and> snd (snd (process_lines w m fmt k lines (g, lg))) = None"
proof (induction lines arbitrary: k g lg)
  case Nil
  then show ?case by simp
next
  case (Cons line lines)
  obtain out g1 lg1 where r: "regex_sub date_regex (replace_date (randbelow w) m fmt) line (g, lg) = (out, g1, lg1)"
    by (cases "regex_sub date_regex (replace_date (randbelow w) m fmt) line (g, lg)") auto
  have g1: "g1 = (draw (randbelow w) m ^^ length (filter (parses fmt) (findall date_regex line))) g"
    using regex_sub_generator[OF assms(1), of "randbelow w" fmt line g lg] r by simp
  have fp: "(f ^^ (a + b)) x = (f ^^ b) ((f ^^ a) x)" for f :: "'a \<Rightarrow> 'a" and a b x
    by (metis add.commute funpow_add comp_apply)
  show ?case
    using Cons.IH[of "Suc k" g1 lg1] r g1 assms(2)
    by (auto simp: fp split: prod.splits)
qed

lemma main_undisturbed:
  assumes "0 < max_shift_days a" "undisturbed w a" "files w (input_file a) = Some text"
  shows "\<exists>written g lg.
           process_lines w (max_shift_days a) (date_format a) 0 (readlines (universal_newlines text))
             (Random w (seed a), []) = (written, (g, lg), None)
           \<and> main w a = \<lparr>files_after = (files w)(output_file a \<mapsto> write_text (linesep w) written),
                          logged = lg @ [Successfully_anonymized (input_file a) (output_file a)],
                          generator = Some g, raised = None\<rparr>"
proof -
  obtain written g lg exc where p:
    "process_lines w (max_shift_days a) (date_format a) 0 (readlines (universal_newlines text))
             (Random w (seed a), []) = (written, (g, lg), exc)"
    by (cases "process_lines w (max_shift_days a) (date_format a) 0 (readlines (universal_newlines text))
             (Random w (seed a), [])") auto
  have lf: "loop_fault w = (\<lambda>k. None)" using assms(2) by (simp add: undisturbed_def)
  have m0: "0 \<le> max_shift_days a" using assms(1) by simp
  have exc: "exc = None"
    using process_lines_generator[OF m0 lf, of "date_format a" 0 "readlines (universal_newlines text)" "Random w (seed a)" "[]"] p
    by simp
  from assms(2) obtain enc where enc: "resolved_encoding w a = Some enc" "known_encoding w enc"
    by (auto simp: undisturbed_def split: option.splits)
  have res: "(case encoding a of None \<Rightarrow> detect_encoding w (input_file a) | Some e \<Rightarrow> (Some e, [])) = (Some enc, [])"
    using enc(1) assms(2,3)
    by (auto simp: resolved_encoding_def detect_encoding_def undisturbed_def split: option.splits)
  have ne: "input_file a \<noteq> output_file a" using assms(2) by (simp add: undisturbed_def)
  have t: "anonymize_try w (input_file a) (output_file a) (max_shift_days a) (seed a) (date_format a) enc
           = ((files w)(output_file a \<mapsto> write_text (linesep w) written), lg, Some g, None)"
    using assms(2,3) enc(2) ne p exc
    by (simp add: anonymize_try_def undisturbed_def Let_def)
  have "main w a = \<lparr>files_after = (files w)(output_file a \<mapsto> write_text (linesep w) written),
                          logged = lg @ [Successfully_anonymized (input_file a) (output_file a)],
                          generator = Some g, raised = None\<rparr>"
    using assms(1,3) by (simp add: main_def anonymize_data_def res t)
  with p exc show ?thesis by blast
qed

text \<open>
  C5. With a positive bound, \<^verbatim>\<open>shift_date\<close> advances the generator by exactly one
  draw when the token parses (whether or not adding the shift then overflows) and leaves
  it alone when it does not. A run that nothing disturbs therefore ends with the generator
  advanced once for each match that parses, taken line by line and from left to right.
\<close>

theorem one_draw_per_parsed_match:
  assumes "0 < max_shift_days a" "undisturbed w a" "files w (input_file a) = Some text"
    and "modelled_format (date_format a)"
  shows "generator (main w a)
         = Some ((draw (randbelow w) (max_shift_days a)
                   ^^ length (filter (parses (date_format a))
                        (concat (map (findall date_regex) (readlines (universal_newlines text))))))
                 (Random w (seed a)))
       \<and> (\<forall>tok g. fst (snd (shift_date (randbelow w) tok (max_shift_days a) (date_format a) g))
             = (if parses (date_format a) tok then draw (randbelow w) (max_shift_days a) g else g))"
proof -
  have m0: "0 \<le> max_shift_days a" using assms(1) by simp
  have lf: "loop_fault w = (\<lambda>k. None)" using assms(2) by (simp add: undisturbed_def)
  from main_undisturbed[OF assms(1,2,3)] obtain written g lg where
    p: "process_lines w (max_shift_days a) (date_format a) 0 (readlines (universal_newlines text))
             (Random w (seed a), []) = (written, (g, lg), None)"
    and r: "generator (main w a) = Some g" by auto
  from process_lines_generator[OF m0 lf, of "date_format a" 0 "readlines (universal_newlines text)" "Random w (seed a)" "[]"] p
  have "g = (draw (randbelow w) (max_shift_days a)
                   ^^ length (filter (parses (date_format a))
                        (concat (map (findall date_regex) (readlines (universal_newlines text))))))
                 (Random w (seed a))" by simp
  with r have 1: "generator (main w a)
         = Some ((draw (randbelow w) (max_shift_days a)
                   ^^ length (filter (parses (date_format a))
                        (concat (map (findall date_regex) (readlines (universal_newlines text))))))
                 (Random w (seed a)))" by simp
  show ?thesis
    by (intro conjI allI) (rule 1, rule shift_date_generator[OF m0])
qed

theorem one_draw_per_parsed_match_witness:
  "0 < max_shift_days (example_args 10 ''%Y-%m-%d'')
   \<and> undisturbed (example_world ''2023-02-30, 2023-03-01'') (example_args 10 ''%Y-%m-%d'')
   \<and> files (example_world ''2023-02-30, 2023-03-01'') (input_file (example_args 10 ''%Y-%m-%d''))
       = Some ''2023-02-30, 2023-03-01''
   \<and> modelled_format (date_format (example_args 10 ''%Y-%m-%d''))
   \<and> filter (parses ''%Y-%m-%d'')
         (concat (map (findall date_regex) (readlines (universal_newlines ''2023-02-30, 2023-03-01''))))
       = [''2023-03-01'']
   \<and> generator (main (example_world ''2023-02-30, 2023-03-01'') (example_args 10 ''%Y-%m-%d'')) = Some 1
   \<and> parses ''%Y-%m-%d'' ''9999-12-31''
   \<and> shift_date counting_randbelow ''9999-12-31'' 10 ''%Y-%m-%d'' 20
       = (None, 21, [Error_shifting_date ''9999-12-31'' OverflowError])"
proof -
  have a: "0 < max_shift_days (example_args 10 ''%Y-%m-%d'')"
    by (simp add: example_args_def)
  have b: "undisturbed (example_world ''2023-02-30, 2023-03-01'') (example_args 10 ''%Y-%m-%d'')"
    by (simp add: undisturbed_def resolved_encoding_def detect_encoding_def example_world_def example_args_def)
  have c: "files (example_world ''2023-02-30, 2023-03-01'') (input_file (example_args 10 ''%Y-%m-%d''))
       = Some ''2023-02-30, 2023-03-01''"
    by (simp add: example_world_def example_args_def)
  have d: "filter (parses ''%Y-%m-%d'')
         (concat (map (findall date_regex) (readlines (universal_newlines ''2023-02-30, 2023-03-01''))))
       = [''2023-03-01'']"
    by (simp add: parses_def run_defs)
  have e: "parses ''%Y-%m-%d'' ''9999-12-31''"
    by (simp add: parses_def run_defs)
  have f: "shift_date counting_randbelow ''9999-12-31'' 10 ''%Y-%m-%d'' 20
       = (None, 21, [Error_shifting_date ''9999-12-31'' OverflowError])"
    by (simp add: run_defs)
  have g: "date_format (example_args 10 ''%Y-%m-%d'') = ''%Y-%m-%d''"
    by (simp add: example_args_def)
  have h: "(draw (randbelow (example_world ''2023-02-30, 2023-03-01''))
                 (max_shift_days (example_args 10 ''%Y-%m-%d'')) ^^ length [''2023-03-01''])
             (Random (example_world ''2023-02-30, 2023-03-01'') (seed (example_args 10 ''%Y-%m-%d''))) = 1"
    by (simp add: draw_def counting_randbelow_def Random_def example_world_def example_args_def)
  have mf: "modelled_format (date_format (example_args 10 ''%Y-%m-%d''))"
    by (simp add: example_args_def)
  have i: "generator (main (example_world ''2023-02-30, 2023-03-01'') (example_args 10 ''%Y-%m-%d'')) = Some 1"
    using one_draw_per_parsed_match[OF a b c mf, THEN conjunct1] unfolding g d h .
  show ?thesis
    by (intro conjI) (rule a b c d e f i mf)+
qed

section \<open>The format does not steer the scanner\<close>

lemma digit_not_slash: "is_digit x \<Longrightarrow> \<not> ci_eq (CHR ''/'') x"
  by (auto simp: is_digit_def digits_def ci_eq_def lower_code_def)

lemma rx_d_remainders:
  "r \<in> set (rx_match rx_d (a # b # rest)) \<Longrightarrow> r = rest \<or> r = b # rest"
  by (auto simp: rx_d_def split: if_splits)

lemma concat_map_empty: "(\<And>x. x \<in> set xs \<Longrightarrow> f x = []) \<Longrightarrow> concat (map f xs) = []"
  by (induction xs) auto

lemma compile_dmY:
  "compile_format ''%d/%m/%Y''
   = Inr [Field (CHR ''d''), Lit (CHR ''/''), Field (CHR ''m''), Lit (CHR ''/''), Field (CHR ''Y'')]"
  by (simp add: compile_format_def fields_of_def directive_rx_def is_space_def)

lemma strptime_dmY_fails:
  assumes "regex_match date_regex tok = Some tok"
  shows "strptime tok ''%d/%m/%Y'' = Inl ValueError"
proof -
  from assms obtain a b c rest where tok: "tok = a # b # c # rest" and dg: "is_digit b" "is_digit c"
    unfolding regex_match_date_regex by (auto split: list.splits if_splits)
  have "match_items [Field (CHR ''d''), Lit (CHR ''/''), Field (CHR ''m''), Lit (CHR ''/''), Field (CHR ''Y'')] tok = []"
  proof -
    have "\<And>x. x \<in> set (match_item (Field (CHR ''d'')) tok) \<Longrightarrow>
            (case x of (found, rest) \<Rightarrow>
               map (\<lambda>(found', rest'). (found @ found', rest'))
                 (match_items [Lit (CHR ''/''), Field (CHR ''m''), Lit (CHR ''/''), Field (CHR ''Y'')] rest)) = []"
    proof -
      fix x assume "x \<in> set (match_item (Field (CHR ''d'')) tok)"
      then obtain r where r: "r \<in> set (rx_match rx_d tok)" and x: "snd x = r"
        by (auto simp: directive_rx_def)
      from rx_d_remainders[OF r[unfolded tok]] have "r = c # rest \<or> r = b # c # rest" .
      then have "match_item (Lit (CHR ''/'')) r = []"
        using dg digit_not_slash by auto
      then show "(case x of (found, rest) \<Rightarrow>
               map (\<lambda>(found', rest'). (found @ found', rest'))
                 (match_items [Lit (CHR ''/''), Field (CHR ''m''), Lit (CHR ''/''), Field (CHR ''Y'')] rest)) = []"
        using x by (cases x) simp
    qed
    from concat_map_empty[of "match_item (Field (CHR ''d'')) tok", OF this]
    show ?thesis by (simp only: match_items.simps(2))
  qed
  then show ?thesis by (simp add: strptime_def compile_dmY del: match_items.simps)
qed

lemma unparsed_line_unchanged:
  assumes "\<And>tok. regex_match date_regex tok = Some tok \<Longrightarrow> \<not> parses fmt tok"
  shows "fst (regex_sub date_regex (replace_date rb m fmt) s (g, lg)) = s
         \<and> fst (snd (regex_sub date_regex (replace_date rb m fmt) s (g, lg))) = g"
proof (induction s arbitrary: lg rule: length_induct)
  case (1 s)
  show ?case
  proof (cases s)
    case Nil
    then show ?thesis by simp
  next
    case (Cons c cs)
    show ?thesis
    proof (cases "regex_match date_regex (c # cs)")
      case None
      have "length cs < length s" using Cons by simp
      with 1 have "fst (regex_sub date_regex (replace_date rb m fmt) cs (g, lg)) = cs
         \<and> fst (snd (regex_sub date_regex (replace_date rb m fmt) cs (g, lg))) = g" by blast
      then show ?thesis using None Cons by (auto split: prod.splits)
    next
      case (Some tok)
      note D = regex_match_date_SomeD[OF Some]
      have self: "regex_match date_regex tok = Some tok" using D(3)[of "[]"] by simp
      from assms[OF self] obtain e where e: "strptime tok fmt = Inl e"
        by (cases "strptime tok fmt") (auto simp: parses_def)
      have rep: "replace_date rb m fmt tok (g, lg) = (tok, g, lg @ [shift_date_except tok e])"
        by (rule replace_date_failure[OF e])
      have dr: "drop (max 1 (length tok)) (c # cs) = drop 10 (c # cs)" using D(1) by simp
      have "length (drop 10 (c # cs)) < length s" using Cons by simp
      with 1 have ih: "fst (regex_sub date_regex (replace_date rb m fmt) (drop 10 (c # cs)) (g, lg @ [shift_date_except tok e]))
           = drop 10 (c # cs)
         \<and> fst (snd (regex_sub date_regex (replace_date rb m fmt) (drop 10 (c # cs)) (g, lg @ [shift_date_except tok e]))) = g"
        by blast
      have "regex_sub date_regex (replace_date rb m fmt) (c # cs) (g, lg)
            = (case regex_sub date_regex (replace_date rb m fmt) (drop 10 (c # cs)) (g, lg @ [shift_date_except tok e]) of
                 (out, st2) \<Rightarrow> (tok @ out, st2))"
        by (simp only: regex_sub.simps Some option.case rep prod.case dr)
      moreover obtain out st2 where rs:
        "regex_sub date_regex (replace_date rb m fmt) (drop 10 (c # cs)) (g, lg @ [shift_date_except tok e]) = (out, st2)"
        by (cases "regex_sub date_regex (replace_date rb m fmt) (drop 10 (c # cs)) (g, lg @ [shift_date_except tok e])") auto
      ultimately have res: "regex_sub date_regex (replace_date rb m fmt) (c # cs) (g, lg) = (tok @ out, st2)"
        by simp
      from ih rs have o: "out = drop 10 (c # cs)" "fst st2 = g" by simp_all
      have "tok @ out = c # cs" by (simp only: o(1) D(2)[symmetric])
      with res o(2) Cons show ?thesis by simp
    qed
  qed
qed

text \<open>
  C4, as the code has it. The scanner never looks at the format. With the format
  \<^verbatim>\<open>%d/%m/%Y\<close> every token it matches fails to parse (after the one or two digits
  that \<^verbatim>\<open>%d\<close> takes comes another digit, not the slash), so each token is put back
  with a warning, every line comes out as it went in and nothing is drawn.
\<close>

theorem format_decoupling:
  assumes "regex_match date_regex tok = Some tok"
  shows "modelled_format ''%d/%m/%Y''
       \<and> strptime tok ''%d/%m/%Y'' = Inl ValueError
       \<and> replace_date rb m ''%d/%m/%Y'' tok (g, lg) = (tok, g, lg @ [Invalid_date tok ValueError])
       \<and> fst (regex_sub date_regex (replace_date rb m ''%d/%m/%Y'') line (g, lg)) = line
       \<and> fst (snd (regex_sub date_regex (replace_date rb m ''%d/%m/%Y'') line (g, lg))) = g"
proof -
  have f: "strptime tok ''%d/%m/%Y'' = Inl ValueError" by (rule strptime_dmY_fails[OF assms])
  have np: "\<And>t. regex_match date_regex t = Some t \<Longrightarrow> \<not> parses ''%d/%m/%Y'' t"
    by (simp add: parses_def strptime_dmY_fails)
  show ?thesis
    using f replace_date_failure[OF f, of rb m g lg] unparsed_line_unchanged[of "''%d/%m/%Y''" rb m line g lg, OF np]
    by (simp add: shift_date_except_def del: regex_sub.simps)
qed

theorem format_decoupling_witness:
  "regex_match date_regex ''2023-06-15'' = Some ''2023-06-15''
   \<and> strptime ''2023-06-15'' ''%d/%m/%Y'' = Inl ValueError
   \<and> replace_date counting_randbelow 10 ''%d/%m/%Y'' ''2023-06-15'' (0, [])
        = (''2023-06-15'', 0, [Invalid_date ''2023-06-15'' ValueError])
   \<and> fst (regex_sub date_regex (replace_date counting_randbelow 10 ''%d/%m/%Y'') ''Visit on 2023-06-15.'' (0, []))
        = ''Visit on 2023-06-15.''"
proof -
  have a: "regex_match date_regex ''2023-06-15'' = Some ''2023-06-15''"
    by (simp add: regex_match_date_regex is_digit_def digits_def)
  from format_decoupling[OF a, of counting_randbelow 10 0 "[]" "''Visit on 2023-06-15.''"] a
  show ?thesis by (simp del: regex_sub.simps)
qed

text \<open>
  C4 as stated speaks of every format other than the default. The format
  \<^verbatim>\<open>%Y-%d-%m\<close> is another one, and it parses the tokens the scanner finds: 2023-01-02
  is read as the first of February and shifted.
\<close>

theorem format_decoupling_counterexample:
  "''%Y-%d-%m'' \<noteq> ''%Y-%m-%d'' \<and> modelled_format ''%Y-%d-%m''
   \<and> regex_match date_regex ''2023-01-02'' = Some ''2023-01-02''
   \<and> strptime ''2023-01-02'' ''%Y-%d-%m'' = Inr \<lparr>year = 2023, month = 2, day = 1\<rparr>
   \<and> files_after (main (example_world ''2023-01-02'') (example_args 1 ''%Y-%d-%m'')) ''out.txt''
       = Some ''2023-31-01''"
  by (simp add: run_defs)

section \<open>What a run leaves unchanged\<close>

lemma gaps_not_Nil: "gaps r s \<noteq> []"
  by (cases s) (auto split: option.splits list.splits)

lemma weave_Cons_gap: "weave ((c # g) # gs) ts = c # weave (g # gs) ts"
  by (cases ts) simp_all

lemma weave_gaps_findall: "weave (gaps date_regex s) (findall date_regex s) = s"
proof (induction s rule: length_induct)
  case (1 s)
  show ?case
  proof (cases s)
    case Nil
    then show ?thesis by simp
  next
    case (Cons c cs)
    show ?thesis
    proof (cases "regex_match date_regex (c # cs)")
      case None
      have ih: "weave (gaps date_regex cs) (findall date_regex cs) = cs" using 1 Cons by simp
      obtain g gs where g: "gaps date_regex cs = g # gs" using gaps_not_Nil by (cases "gaps date_regex cs") auto
      show ?thesis using None Cons ih g by (simp add: weave_Cons_gap)
    next
      case (Some tok)
      note D = regex_match_date_SomeD[OF Some]
      have dr: "drop (max 1 (length tok)) (c # cs) = drop 10 (c # cs)" using D(1) by simp
      have "length (drop 10 (c # cs)) < length s" using Cons by simp
      with 1 have ih: "weave (gaps date_regex (drop 10 (c # cs))) (findall date_regex (drop 10 (c # cs))) = drop 10 (c # cs)"
        by blast
      have "weave (gaps date_regex (c # cs)) (findall date_regex (c # cs)) = tok @ drop 10 (c # cs)"
        by (simp only: gaps.simps findall.simps Some option.case dr weave.simps ih append_Nil)
      from this D(2)[symmetric] show ?thesis unfolding Cons by (rule trans)
    qed
  qed
qed

lemma regex_sub_weave:
  "\<exists>reps. length reps = length (findall date_regex s)
          \<and> fst (regex_sub date_regex repl s st) = weave (gaps date_regex s) reps"
proof (induction s arbitrary: st rule: length_induct)
  case (1 s)
  show ?case
  proof (cases s)
    case Nil
    then show ?thesis by simp
  next
    case (Cons c cs)
    show ?thesis
    proof (cases "regex_match date_regex (c # cs)")
      case None
      from 1 Cons obtain reps where ih: "length reps = length (findall date_regex cs)"
          "fst (regex_sub date_regex repl cs st) = weave (gaps date_regex cs) reps"
        by (metis length_Cons lessI)
      obtain g gs where g: "gaps date_regex cs = g # gs" using gaps_not_Nil by (cases "gaps date_regex cs") auto
      have "fst (regex_sub date_regex repl (c # cs) st) = weave (gaps date_regex (c # cs)) reps"
        using None ih(2) g by (auto simp: weave_Cons_gap split: prod.splits)
      with ih(1) None Cons show ?thesis by auto
    next
      case (Some tok)
      note D = regex_match_date_SomeD[OF Some]
      have dr: "drop (max 1 (length tok)) (c # cs) = drop 10 (c # cs)" using D(1) by simp
      obtain rep st1 where r: "repl tok st = (rep, st1)" by (cases "repl tok st") auto
      have "length (drop 10 (c # cs)) < length s" using Cons by simp
      with 1 obtain reps where ih: "length reps = length (findall date_regex (drop 10 (c # cs)))"
          "fst (regex_sub date_regex repl (drop 10 (c # cs)) st1) = weave (gaps date_regex (drop 10 (c # cs))) reps"
        by blast
      obtain out st2 where rs: "regex_sub date_regex repl (drop 10 (c # cs)) st1 = (out, st2)"
        by (cases "regex_sub date_regex repl (drop 10 (c # cs)) st1") auto
      have a: "regex_sub date_regex repl (c # cs) st = (rep @ out, st2)"
        by (simp only: regex_sub.simps Some option.case r prod.case dr rs)
      have b: "gaps date_regex (c # cs) = [] # gaps date_regex (drop 10 (c # cs))"
        by (simp only: gaps.simps Some option.case dr)
      have c: "findall date_regex (c # cs) = tok # findall date_regex (drop 10 (c # cs))"
        by (simp only: findall.simps Some option.case dr)
      have "length (rep # reps) = length (findall date_regex (c # cs))
            \<and> fst (regex_sub date_regex repl (c # cs) st) = weave (gaps date_regex (c # cs)) (rep # reps)"
        using ih rs unfolding a b c by simp
      then show ?thesis unfolding Cons by blast
    qed
  qed
qed

lemma process_lines_weave:
  assumes "loop_fault w = (\<lambda>k. None)"
  shows "\<exists>outs. fst (process_lines w m fmt k lines st) = concat outs
           \<and> list_all2 (\<lambda>line out. \<exists>reps. length reps = length (findall date_regex line)
                                   \<and> line = weave (gaps date_regex line) (findall date_regex line)
                                   \<and> out = weave (gaps date_regex line) reps) lines outs"
proof (induction lines arbitrary: k st)
  case Nil
  then show ?case by simp
next
  case (Cons line lines)
  obtain out st1 where r: "regex_sub date_regex (replace_date (randbelow w) m fmt) line st = (out, st1)"
    by (cases "regex_sub date_regex (replace_date (randbelow w) m fmt) line st") auto
  from regex_sub_weave[of line "replace_date (randbelow w) m fmt" st] r
  obtain reps where reps: "length reps = length (findall date_regex line)" "out = weave (gaps date_regex line) reps"
    by auto
  from Cons.IH[of "Suc k" st1] obtain outs where outs:
    "fst (process_lines w m fmt (Suc k) lines st1) = concat outs"
    "list_all2 (\<lambda>line out. \<exists>reps. length reps = length (findall date_regex line)
                                   \<and> line = weave (gaps date_regex line) (findall date_regex line)
                                   \<and> out = weave (gaps date_regex line) reps) lines outs"
    by blast
  have 1: "fst (process_lines w m fmt k (line # lines) st) = concat (out # outs)"
    using assms r outs(1) by (auto split: prod.splits)
  have 2: "list_all2 (\<lambda>line out. \<exists>reps. length reps = length (findall date_regex line)
                                   \<and> line = weave (gaps date_regex line) (findall date_regex line)
                                   \<and> out = weave (gaps date_regex line) reps) (line # lines) (out # outs)"
    using outs(2) reps weave_gaps_findall[of line] by auto
  from 1 2 show ?case by blast
qed

lemma concat_readlines: "concat (readlines s) = s"
  by (induction s) (auto split: list.splits)

lemma universal_newlines_id: "CR \<notin> set s \<Longrightarrow> universal_newlines s = s"
  by (induction s rule: universal_newlines.induct) auto

lemma write_text_LF: "write_text [LF] s = s"
  by (induction s) (auto simp: write_text_def)

text \<open>
  C6, as the code has it. In a run that nothing disturbs, with the output another file
  than the input, the output file holds the lines of the text the input decodes to,
  each with its matched tokens replaced and every piece of text between them as it was,
  in the same order; no other file changes. The lines are those of the text after
  universal-newline translation (\<^verbatim>\<open>\r\n\<close> and \<^verbatim>\<open>\r\<close> read as \<^verbatim>\<open>\n\<close>), and
  each \<^verbatim>\<open>\n\<close> is written as \<^verbatim>\<open>os.linesep\<close>. A text without \<^verbatim>\<open>\r\<close> is read
  as it is, and where the separator is \<^verbatim>\<open>\n\<close> the text is written as it is.
\<close>

theorem text_outside_tokens_kept:
  assumes "0 < max_shift_days a" "undisturbed w a" "files w (input_file a) = Some text"
  shows "\<exists>outs. files_after (main w a) (output_file a) = Some (write_text (linesep w) (concat outs))
          \<and> list_all2 (\<lambda>line out. \<exists>reps. length reps = length (findall date_regex line)
                                   \<and> line = weave (gaps date_regex line) (findall date_regex line)
                                   \<and> out = weave (gaps date_regex line) reps)
               (readlines (universal_newlines text)) outs
          \<and> concat (readlines (universal_newlines text)) = universal_newlines text
          \<and> (CR \<notin> set text \<longrightarrow> universal_newlines text = text)
          \<and> (linesep w = [LF] \<longrightarrow> write_text (linesep w) (concat outs) = concat outs)
          \<and> (\<forall>p. p \<noteq> output_file a \<longrightarrow> files_after (main w a) p = files w p)"
proof -
  have lf: "loop_fault w = (\<lambda>k. None)" using assms(2) by (simp add: undisturbed_def)
  from main_undisturbed[OF assms] obtain written g lg where
    p: "process_lines w (max_shift_days a) (date_format a) 0 (readlines (universal_newlines text))
             (Random w (seed a), []) = (written, (g, lg), None)"
    and r: "main w a = \<lparr>files_after = (files w)(output_file a \<mapsto> write_text (linesep w) written),
                          logged = lg @ [Successfully_anonymized (input_file a) (output_file a)],
                          generator = Some g, raised = None\<rparr>" by auto
  from process_lines_weave[OF lf, of "max_shift_days a" "date_format a" 0 "readlines (universal_newlines text)"
      "(Random w (seed a), [])"] p
  obtain outs where outs: "written = concat outs"
    "list_all2 (\<lambda>line out. \<exists>reps. length reps = length (findall date_regex line)
                                   \<and> line = weave (gaps date_regex line) (findall date_regex line)
                                   \<and> out = weave (gaps date_regex line) reps)
               (readlines (universal_newlines text)) outs"
    by auto
  have 1: "files_after (main w a) (output_file a) = Some (write_text (linesep w) (concat outs))"
    using r outs(1) by simp
  have 2: "\<forall>p. p \<noteq> output_file a \<longrightarrow> files_after (main w a) p = files w p"
    using r by simp
  have 3: "linesep w = [LF] \<longrightarrow> write_text (linesep w) (concat outs) = concat outs"
    by (simp add: write_text_LF)
  from 1 2 3 outs(2) concat_readlines universal_newlines_id show ?thesis by blast
qed

theorem text_outside_tokens_kept_witness:
  "0 < max_shift_days (example_args 10 ''%Y-%m-%d'')
   \<and> undisturbed (example_world ''On 2023-06-15, ok'') (example_args 10 ''%Y-%m-%d'')
   \<and> files (example_world ''On 2023-06-15, ok'') (input_file (example_args 10 ''%Y-%m-%d''))
       = Some ''On 2023-06-15, ok''
   \<and> gaps date_regex ''On 2023-06-15, ok'' = [''On '', '', ok'']
   \<and> files_after (main (example_world ''On 2023-06-15, ok'') (example_args 10 ''%Y-%m-%d'')) ''out.txt''
       = Some (weave [''On '', '', ok''] [''2023-06-05''])
   \<and> (\<exists>outs. files_after (main (example_world ''On 2023-06-15, ok'') (example_args 10 ''%Y-%m-%d''))
                 (output_file (example_args 10 ''%Y-%m-%d''))
               = Some (write_text (linesep (example_world ''On 2023-06-15, ok'')) (concat outs))
          \<and> list_all2 (\<lambda>line out. \<exists>reps. length reps = length (findall date_regex line)
                                   \<and> line = weave (gaps date_regex line) (findall date_regex line)
                                   \<and> out = weave (gaps date_regex line) reps)
               (readlines (universal_newlines ''On 2023-06-15, ok'')) outs)"
proof -
  have a: "0 < max_shift_days (example_args 10 ''%Y-%m-%d'')"
    by (simp add: example_args_def)
  have b: "undisturbed (example_world ''On 2023-06-15, ok'') (example_args 10 ''%Y-%m-%d'')"
    by (simp add: undisturbed_def resolved_encoding_def detect_encoding_def example_world_def example_args_def)
  have c: "files (example_world ''On 2023-06-15, ok'') (input_file (example_args 10 ''%Y-%m-%d''))
       = Some ''On 2023-06-15, ok''"
    by (simp add: example_world_def example_args_def)
  have d: "gaps date_regex ''On 2023-06-15, ok'' = [''On '', '', ok'']"
    by (simp add: run_defs)
  have e: "files_after (main (example_world ''On 2023-06-15, ok'') (example_args 10 ''%Y-%m-%d'')) ''out.txt''
       = Some (weave [''On '', '', ok''] [''2023-06-05''])"
    by (simp add: run_defs)
  from text_outside_tokens_kept[OF a b c] obtain outs where
    f: "files_after (main (example_world ''On 2023-06-15, ok'') (example_args 10 ''%Y-%m-%d''))
                 (output_file (example_args 10 ''%Y-%m-%d''))
               = Some (write_text (linesep (example_world ''On 2023-06-15, ok'')) (concat outs))
          \<and> list_all2 (\<lambda>line out. \<exists>reps. length reps = length (findall date_regex line)
                                   \<and> line = weave (gaps date_regex line) (findall date_regex line)
                                   \<and> out = weave (gaps date_regex line) reps)
               (readlines (universal_newlines ''On 2023-06-15, ok'')) outs"
    by blast
  then have g: "\<exists>outs. files_after (main (example_world ''On 2023-06-15, ok'') (example_args 10 ''%Y-%m-%d''))
                 (output_file (example_args 10 ''%Y-%m-%d''))
               = Some (write_text (linesep (example_world ''On 2023-06-15, ok'')) (concat outs))
          \<and> list_all2 (\<lambda>line out. \<exists>reps. length reps = length (findall date_regex line)
                                   \<and> line = weave (gaps date_regex line) (findall date_regex line)
                                   \<and> out = weave (gaps date_regex line) reps)
               (readlines (universal_newlines ''On 2023-06-15, ok'')) outs"
    by (rule exI)
  show ?thesis
    by (intro conjI) (rule a b c d e g)+
qed

text \<open>
  C6 as stated includes the line terminators. A text with a \<^verbatim>\<open>\r\n\<close> terminator and no
  date in it is not written back as it was where \<^verbatim>\<open>os.linesep\<close> is \<^verbatim>\<open>\n\<close>.
\<close>

theorem line_terminators_counterexample:
  "findall date_regex (''a'' @ [CR, LF] @ ''b'') = []
   \<and> undisturbed (example_world (''a'' @ [CR, LF] @ ''b'')) (example_args 10 ''%Y-%m-%d'')
   \<and> files (example_world (''a'' @ [CR, LF] @ ''b'')) ''in.txt'' = Some (''a'' @ [CR, LF] @ ''b'')
   \<and> files_after (main (example_world (''a'' @ [CR, LF] @ ''b'')) (example_args 10 ''%Y-%m-%d'')) ''out.txt''
       = Some (''a'' @ [LF] @ ''b'')
   \<and> ''a'' @ [LF] @ ''b'' \<noteq> ''a'' @ [CR, LF] @ ''b''"
  by (simp add: run_defs undisturbed_def resolved_encoding_def)

section \<open>Rendering and parsing back\<close>



































section \<open>The shift\<close>






end
